theory Spec2Isabelle
  imports Complex_Main "HOL-Library.Word" "HOL-Library.AList"
begin

section \<open>The joystick driver of pisense (\<^verbatim>\<open>src/pisense/stick.py\<close>)\<close>

text \<open>
  The driver is modelled sequentially: every method of \<^verbatim>\<open>SenseStick\<close> is a function
  from the object's state to its outcome and the state it leaves. The two background
  threads are modelled by the bodies of their loops, run against the state as one thread
  sees it; the lock \<^verbatim>\<open>_callbacks_lock\<close> therefore has no counterpart here. The calls
  \<^verbatim>\<open>Thread.start\<close>, \<^verbatim>\<open>Thread.join\<close>, \<^verbatim>\<open>warnings.warn\<close> and the calls of user handlers
  are recorded in the state, in the order in which they happen.
\<close>

subsection \<open>Exceptions, warnings and outcomes\<close>

datatype error = Empty | KeyError | ValueError | AttributeError | UnboundLocalError | RuntimeError

datatype warning = SenseStickBufferFull | SenseStickCallbackRead

text \<open>
  A call returns a value, raises, or blocks for ever (a \<^verbatim>\<open>Queue.get\<close> with no timeout on
  an empty queue that nobody fills, a \<^verbatim>\<open>Queue.put\<close> on a full queue that nobody drains).
\<close>

datatype 'a outcome = Return 'a | Raise error | Block

subsection \<open>Events\<close>

text \<open>\<^verbatim>\<open>InputEvent = namedtuple('InputEvent', ('timestamp', 'direction', 'action'))\<close>\<close>

record InputEvent =
  timestamp :: real
  direction :: string
  action :: string

text \<open>
  The five fields that \<^verbatim>\<open>struct.unpack('llHHI', event)\<close> yields: two native longs, two
  unsigned 16-bit fields (type and code) and one unsigned 32-bit field (value).
\<close>

record raw_event =
  tv_sec :: int
  tv_usec :: int
  ev_type :: "16 word"
  ev_code :: "16 word"
  ev_value :: "32 word"

text \<open>
  Under \<^verbatim>\<open>from __future__ import division\<close> the source computes the timestamp
  \<^verbatim>\<open>tv_sec + (tv_usec / 1000000)\<close> in double precision: the quotient of the two integers
  is rounded to a float, and so is its sum with the integer \<^verbatim>\<open>tv_sec\<close>. The two
  operations are parameters of the model, and nothing is assumed of them:
  \<open>truediv a b\<close> is the float that \<^verbatim>\<open>a / b\<close> gives for integers \<^verbatim>\<open>a\<close> and \<^verbatim>\<open>b\<close>, and
  \<open>add_float a x\<close> the float that \<^verbatim>\<open>a + x\<close> gives for an integer \<^verbatim>\<open>a\<close> and a float
  \<^verbatim>\<open>x\<close>. A float is modelled by its value, a real number.
\<close>

record arith =
  truediv :: "int \<Rightarrow> int \<Rightarrow> real"
  add_float :: "int \<Rightarrow> real \<Rightarrow> real"

definition EV_KEY :: "16 word" where "EV_KEY = 0x01"

definition STATE_RELEASE :: "32 word" where "STATE_RELEASE = 0"
definition STATE_PRESS :: "32 word" where "STATE_PRESS = 1"
definition STATE_HOLD :: "32 word" where "STATE_HOLD = 2"

definition KEY_UP :: "16 word" where "KEY_UP = 103"
definition KEY_LEFT :: "16 word" where "KEY_LEFT = 105"
definition KEY_RIGHT :: "16 word" where "KEY_RIGHT = 106"
definition KEY_DOWN :: "16 word" where "KEY_DOWN = 108"
definition KEY_ENTER :: "16 word" where "KEY_ENTER = 28"

subsection \<open>The standard library's bounded queue\<close>

text \<open>
  \<^verbatim>\<open>queue.Queue(maxsize)\<close> as its documentation gives it: a FIFO of at most
  \<^verbatim>\<open>maxsize\<close> items, unbounded when \<^verbatim>\<open>maxsize <= 0\<close>. \<^verbatim>\<open>get(timeout)\<close> raises
  \<^verbatim>\<open>ValueError\<close> for a negative timeout, raises \<^verbatim>\<open>Empty\<close> when the timeout passes
  with the queue still empty, and waits for ever on an empty queue when the timeout is
  \<^verbatim>\<open>None\<close>; \<^verbatim>\<open>put(item)\<close> waits for ever on a full queue.
\<close>

record 'a Queue =
  maxsize :: int
  items :: "'a list"

definition Queue_init :: "int \<Rightarrow> 'a Queue" where
  "Queue_init m = \<lparr>maxsize = m, items = []\<rparr>"

definition Queue_full :: "'a Queue \<Rightarrow> bool" where
  "Queue_full q = (0 < maxsize q \<and> maxsize q \<le> int (length (items q)))"

definition Queue_get :: "real option \<Rightarrow> 'a Queue \<Rightarrow> 'a outcome \<times> 'a Queue" where
  "Queue_get timeout q =
     (case timeout of
        None \<Rightarrow> (case items q of [] \<Rightarrow> (Block, q) | x # xs \<Rightarrow> (Return x, q\<lparr>items := xs\<rparr>))
      | Some t \<Rightarrow>
          if t < 0 then (Raise ValueError, q)
          else (case items q of [] \<Rightarrow> (Raise Empty, q) | x # xs \<Rightarrow> (Return x, q\<lparr>items := xs\<rparr>)))"

definition Queue_put :: "'a \<Rightarrow> 'a Queue \<Rightarrow> unit outcome \<times> 'a Queue" where
  "Queue_put x q =
     (if Queue_full q then (Block, q) else (Return (), q\<lparr>items := items q @ [x]\<rparr>))"

subsection \<open>The state of a \<^verbatim>\<open>SenseStick\<close>\<close>

text \<open>A user's handler is opaque to the driver: only its identity matters.\<close>

datatype handler = Handler nat

text \<open>
  The thread objects the driver creates: the one reader thread of \<^verbatim>\<open>__init__\<close>, and
  one dispatch thread per start in \<^verbatim>\<open>_start_stop_callbacks\<close>, numbered by the count of
  threads started before it.
\<close>

datatype thread = ReadThread | CallbacksThread nat

text \<open>
  The fields of the object, without the leading underscore. \<^verbatim>\<open>rotate_attr\<close> is the
  attribute \<^verbatim>\<open>_rotate\<close> and \<^verbatim>\<open>rotation_attr\<close> the attribute \<^verbatim>\<open>rotation\<close>; either is
  \<open>None\<close> while the object has no such attribute. The last four fields are the
  effects outside the object: threads started, threads joined, warnings issued and
  handler calls made.
\<close>

record SenseStick =
  callbacks_close :: bool
  callbacks :: "(string \<times> handler) list"
  callbacks_thread :: "thread option"
  closing :: bool
  buffer :: "InputEvent Queue"
  read_thread :: "thread option"
  rotate_attr :: "int option"
  rotation_attr :: "int option"
  started :: "thread list"
  joined :: "thread list"
  warned :: "warning list"
  called :: "(handler \<times> InputEvent) list"

definition Thread_start :: "thread \<Rightarrow> SenseStick \<Rightarrow> SenseStick" where
  "Thread_start t s = s\<lparr>started := started s @ [t]\<rparr>"

definition Thread_join :: "thread \<Rightarrow> SenseStick \<Rightarrow> SenseStick" where
  "Thread_join t s = s\<lparr>joined := joined s @ [t]\<rparr>"

definition warn :: "warning \<Rightarrow> SenseStick \<Rightarrow> SenseStick" where
  "warn w s = s\<lparr>warned := warned s @ [w]\<rparr>"

text \<open>
  \<^verbatim>\<open>__init__(self, max_events=100)\<close>. The second argument is what \<^verbatim>\<open>_stick_device()\<close>
  gives: the path of the device, or the exception it raises, in which case the
  constructor raises it too; \<open>new_stick\<close> is the object when the device was found.
  The attribute \<^verbatim>\<open>_rotate\<close> is not assigned.
\<close>

definition new_stick :: "int \<Rightarrow> SenseStick" where
  "new_stick max_events =
     Thread_start ReadThread
       \<lparr>callbacks_close = False, callbacks = [], callbacks_thread = None,
        closing = False, buffer = Queue_init max_events,
        read_thread = Some ReadThread, rotate_attr = None, rotation_attr = None,
        started = [], joined = [], warned = [], called = []\<rparr>"

definition init :: "int \<Rightarrow> string outcome \<Rightarrow> SenseStick outcome" where
  "init max_events device =
     (case device of
        Return path \<Rightarrow> Return (new_stick max_events)
      | Raise e \<Rightarrow> Raise e
      | Block \<Rightarrow> Block)"

subsection \<open>The \<^verbatim>\<open>rotate\<close> property\<close>

definition get_rotate :: "SenseStick \<Rightarrow> int outcome" where
  "get_rotate s = (case rotate_attr s of None \<Rightarrow> Raise AttributeError | Some v \<Rightarrow> Return v)"

definition set_rotate :: "int \<Rightarrow> SenseStick \<Rightarrow> unit outcome \<times> SenseStick" where
  "set_rotate v s =
     (if v mod 90 \<noteq> 0 then (Raise ValueError, s)
      else (Return (), s\<lparr>rotate_attr := Some (v mod 360)\<rparr>))"

subsection \<open>\<^verbatim>\<open>close\<close>\<close>

definition close :: "SenseStick \<Rightarrow> SenseStick" where
  "close s =
     (case read_thread s of
        None \<Rightarrow> s
      | Some rt \<Rightarrow>
          let s1 = s\<lparr>closing := True\<rparr>;
              s2 = Thread_join rt s1;
              s3 = (case callbacks_thread s2 of None \<Rightarrow> s2 | Some ct \<Rightarrow> Thread_join ct s2)
          in s3\<lparr>read_thread := None, callbacks_thread := None\<rparr>)"

subsection \<open>The reader thread: \<^verbatim>\<open>_read_stick\<close>\<close>

text \<open>The two dictionary displays of \<^verbatim>\<open>_read_stick\<close>, in the order of the source.\<close>

definition direction_table :: "(16 word \<times> string) list" where
  "direction_table =
     [(KEY_UP, ''up''), (KEY_DOWN, ''down''), (KEY_LEFT, ''left''),
      (KEY_RIGHT, ''right''), (KEY_ENTER, ''enter'')]"

definition action_table :: "(32 word \<times> string) list" where
  "action_table =
     [(STATE_PRESS, ''pressed''), (STATE_RELEASE, ''released''), (STATE_HOLD, ''held'')]"

text \<open>
  The expression \<^verbatim>\<open>InputEvent(timestamp=..., direction={...}[code], action={...}[value])\<close>:
  the direction is looked up before the action, and a key missing from a display raises
  \<^verbatim>\<open>KeyError\<close>.
\<close>

definition make_event :: "arith \<Rightarrow> raw_event \<Rightarrow> InputEvent outcome" where
  "make_event fl r =
     (case map_of direction_table (ev_code r) of
        None \<Rightarrow> Raise KeyError
      | Some d \<Rightarrow>
          (case map_of action_table (ev_value r) of
             None \<Rightarrow> Raise KeyError
           | Some a \<Rightarrow>
               Return \<lparr>timestamp = add_float fl (tv_sec r) (truediv fl (tv_usec r) 1000000),
                       direction = d, action = a\<rparr>))"

text \<open>
  The body of the loop for one record read from the device. For a key record the
  \<^verbatim>\<open>if self._buffer.full()\<close> block runs first (the warning, then \<^verbatim>\<open>get()\<close> with no
  timeout), then the event is built, then it is put.
\<close>

definition make_room :: "SenseStick \<Rightarrow> unit outcome \<times> SenseStick" where
  "make_room s =
     (if Queue_full (buffer s) then
        (let s1 = warn SenseStickBufferFull s in
         case Queue_get None (buffer s1) of
           (Return x, q) \<Rightarrow> (Return (), s1\<lparr>buffer := q\<rparr>)
         | (Raise e, q) \<Rightarrow> (Raise e, s1\<lparr>buffer := q\<rparr>)
         | (Block, q) \<Rightarrow> (Block, s1\<lparr>buffer := q\<rparr>))
      else (Return (), s))"

definition read_stick_record :: "arith \<Rightarrow> raw_event \<Rightarrow> SenseStick \<Rightarrow> unit outcome \<times> SenseStick" where
  "read_stick_record fl r s =
     (if ev_type r = EV_KEY then
        (case make_room s of
           (Return u, s1) \<Rightarrow>
             (case make_event fl r of
                Return ev \<Rightarrow>
                  (case Queue_put ev (buffer s1) of
                     (Return u', q) \<Rightarrow> (Return (), s1\<lparr>buffer := q\<rparr>)
                   | (Raise e, q) \<Rightarrow> (Raise e, s1\<lparr>buffer := q\<rparr>)
                   | (Block, q) \<Rightarrow> (Block, s1\<lparr>buffer := q\<rparr>))
              | Raise e \<Rightarrow> (Raise e, s1)
              | Block \<Rightarrow> (Block, s1))
         | (Raise e, s1) \<Rightarrow> (Raise e, s1)
         | (Block, s1) \<Rightarrow> (Block, s1))
      else (Return (), s))"

text \<open>
  The loop \<^verbatim>\<open>while not self._closing.wait(0)\<close>, run on the records the device delivers,
  in order. With the records used up the function returns the state reached; an
  exception or a blocked call ends the thread there.
\<close>

fun read_stick :: "arith \<Rightarrow> raw_event list \<Rightarrow> SenseStick \<Rightarrow> unit outcome \<times> SenseStick" where
  "read_stick fl [] s = (Return (), s)"
| "read_stick fl (r # rs) s =
     (if closing s then (Return (), s)
      else (case read_stick_record fl r s of
              (Return u, s1) \<Rightarrow> read_stick fl rs s1
            | (Raise e, s1) \<Rightarrow> (Raise e, s1)
            | (Block, s1) \<Rightarrow> (Block, s1)))"

subsection \<open>The dispatch thread: \<^verbatim>\<open>_run_callbacks\<close>\<close>

text \<open>
  One turn of the loop. The local variable \<^verbatim>\<open>cb\<close> is \<open>None\<close> while it is unbound; it
  keeps its value from one turn to the next. \<^verbatim>\<open>get(timeout=0.1)\<close> never returns
  \<^verbatim>\<open>None\<close> (the reader only puts events), so the test \<^verbatim>\<open>event is not None\<close> holds
  whenever it is reached. A \<^verbatim>\<open>KeyError\<close> of the lookup is passed over and leaves
  \<^verbatim>\<open>cb\<close> as it was; the call \<^verbatim>\<open>cb(event)\<close> follows in either case and raises
  \<^verbatim>\<open>UnboundLocalError\<close> when \<^verbatim>\<open>cb\<close> is unbound.
\<close>

definition run_callbacks_turn ::
  "handler option \<Rightarrow> SenseStick \<Rightarrow> handler option outcome \<times> SenseStick" where
  "run_callbacks_turn cb s =
     (case Queue_get (Some 0.1) (buffer s) of
        (Return event, q) \<Rightarrow>
          (let s1 = s\<lparr>buffer := q\<rparr>;
               cb1 = (case map_of (callbacks s1) (direction event) of
                        Some h \<Rightarrow> Some h
                      | None \<Rightarrow> cb)
           in case cb1 of
                None \<Rightarrow> (Raise UnboundLocalError, s1)
              | Some h \<Rightarrow> (Return cb1, s1\<lparr>called := called s1 @ [(h, event)]\<rparr>))
      | (Raise e, q) \<Rightarrow> (Raise e, s\<lparr>buffer := q\<rparr>)
      | (Block, q) \<Rightarrow> (Block, s\<lparr>buffer := q\<rparr>))"

text \<open>
  The loop, run by the dispatch thread alone: no other thread puts events or sets a
  flag meanwhile. It ends by the flags, by an exception or by a blocked call.
\<close>

function run_callbacks_loop :: "handler option \<Rightarrow> SenseStick \<Rightarrow> unit outcome \<times> SenseStick" where
  "run_callbacks_loop cb s =
     (if \<not> callbacks_close s \<and> \<not> closing s then
        (case run_callbacks_turn cb s of
           (Return cb1, s1) \<Rightarrow> run_callbacks_loop cb1 s1
         | (Raise e, s1) \<Rightarrow> (Raise e, s1)
         | (Block, s1) \<Rightarrow> (Block, s1))
      else (Return (), s))"
  by pat_completeness auto

lemma run_callbacks_turn_shrinks:
  "run_callbacks_turn cb s = (Return cb1, s1) \<Longrightarrow>
     length (items (buffer s1)) < length (items (buffer s))"
  by (auto simp: run_callbacks_turn_def Queue_get_def Let_def
           split: list.splits option.splits if_splits)

termination run_callbacks_loop
  by (relation "measure (\<lambda>(cb, s). length (items (buffer s)))")
     (auto dest: run_callbacks_turn_shrinks [OF sym])

declare run_callbacks_loop.simps [simp del]

definition run_callbacks :: "SenseStick \<Rightarrow> unit outcome \<times> SenseStick" where
  "run_callbacks s = run_callbacks_loop None s"

subsection \<open>The callback registry\<close>

definition start_stop_callbacks :: "SenseStick \<Rightarrow> SenseStick" where
  "start_stop_callbacks s =
     (if callbacks s \<noteq> [] \<and> callbacks_thread s = None then
        (let s1 = s\<lparr>callbacks_close := False\<rparr>;
             t = CallbacksThread (length (started s1));
             s2 = s1\<lparr>callbacks_thread := Some t\<rparr>
         in Thread_start t s2)
      else if callbacks s = [] \<and> callbacks_thread s \<noteq> None then
        (case callbacks_thread s of
           Some t \<Rightarrow>
             (let s1 = s\<lparr>callbacks_close := True\<rparr>;
                  s2 = Thread_join t s1
              in s2\<lparr>callbacks_thread := None\<rparr>)
         | None \<Rightarrow> s)
      else s)"

text \<open>
  The body shared by the five setters: a value that is true is stored under the key, a
  value that is not (\<^verbatim>\<open>None\<close>) removes the key, then \<^verbatim>\<open>_start_stop_callbacks()\<close> runs.
\<close>

definition set_when :: "string \<Rightarrow> handler option \<Rightarrow> SenseStick \<Rightarrow> SenseStick" where
  "set_when key v s =
     start_stop_callbacks
       (case v of
          Some h \<Rightarrow> s\<lparr>callbacks := AList.update key h (callbacks s)\<rparr>
        | None \<Rightarrow> s\<lparr>callbacks := AList.delete key (callbacks s)\<rparr>)"

definition when_up :: "handler option \<Rightarrow> SenseStick \<Rightarrow> SenseStick" where
  "when_up = set_when ''up''"

definition when_down :: "handler option \<Rightarrow> SenseStick \<Rightarrow> SenseStick" where
  "when_down = set_when ''down''"

definition when_left :: "handler option \<Rightarrow> SenseStick \<Rightarrow> SenseStick" where
  "when_left = set_when ''left''"

definition when_right :: "handler option \<Rightarrow> SenseStick \<Rightarrow> SenseStick" where
  "when_right = set_when ''right''"

definition when_enter :: "handler option \<Rightarrow> SenseStick \<Rightarrow> SenseStick" where
  "when_enter = set_when ''enter''"

text \<open>An assignment to one of the five properties, and a sequence of them.\<close>

datatype assignment =
  When_up "handler option" | When_down "handler option" | When_left "handler option"
  | When_right "handler option" | When_enter "handler option"

fun assign :: "assignment \<Rightarrow> SenseStick \<Rightarrow> SenseStick" where
  "assign (When_up v) s = when_up v s"
| "assign (When_down v) s = when_down v s"
| "assign (When_left v) s = when_left v s"
| "assign (When_right v) s = when_right v s"
| "assign (When_enter v) s = when_enter v s"

fun assign_all :: "assignment list \<Rightarrow> SenseStick \<Rightarrow> SenseStick" where
  "assign_all [] s = s"
| "assign_all (a # as) s = assign_all as (assign a s)"

text \<open>
  The dispatch threads that were started and not joined. This is what the object keeps
  track of, not whether a thread still runs: a thread whose loop has ended by an
  exception stays in this list until some call joins it.
\<close>

definition is_dispatch :: "thread \<Rightarrow> bool" where
  "is_dispatch t = (case t of ReadThread \<Rightarrow> False | CallbacksThread n \<Rightarrow> True)"

definition dispatch_threads :: "SenseStick \<Rightarrow> thread list" where
  "dispatch_threads s = filter (\<lambda>t. is_dispatch t \<and> t \<notin> set (joined s)) (started s)"

text \<open>
  The invariant of the thread bookkeeping: the dispatch threads started and not joined
  are exactly the one \<^verbatim>\<open>_callbacks_thread\<close> holds, if any; every dispatch thread's number
  is below the count of threads started; only started threads are joined. With it, the
  registry is empty exactly when no dispatch thread is held.
\<close>

fun thread_below :: "nat \<Rightarrow> thread \<Rightarrow> bool" where
  "thread_below k ReadThread = True"
| "thread_below k (CallbacksThread n) = (n < k)"

definition threads_ok :: "SenseStick \<Rightarrow> bool" where
  "threads_ok s =
     (dispatch_threads s = (case callbacks_thread s of None \<Rightarrow> [] | Some t \<Rightarrow> [t]) \<and>
      list_all (thread_below (length (started s))) (started s) \<and>
      list_all (\<lambda>t. t \<in> set (started s)) (joined s))"

definition registry_ok :: "SenseStick \<Rightarrow> bool" where
  "registry_ok s = (threads_ok s \<and> (callbacks s = []) = (callbacks_thread s = None))"

subsection \<open>\<^verbatim>\<open>read\<close>\<close>

definition read :: "real option \<Rightarrow> SenseStick \<Rightarrow> InputEvent option outcome \<times> SenseStick" where
  "read timeout s =
     (let s1 = (if callbacks_thread s \<noteq> None then warn SenseStickCallbackRead s else s) in
      case Queue_get timeout (buffer s1) of
        (Return event, q) \<Rightarrow> (Return (Some event), s1\<lparr>buffer := q\<rparr>)
      | (Raise e, q) \<Rightarrow>
          (if e = Empty then (Return None, s1\<lparr>buffer := q\<rparr>) else (Raise e, s1\<lparr>buffer := q\<rparr>))
      | (Block, q) \<Rightarrow> (Block, s1\<lparr>buffer := q\<rparr>))"

subsection \<open>The facade: \<^verbatim>\<open>SenseHAT.rotation\<close> (\<^verbatim>\<open>src/pisense/__init__.py\<close>)\<close>



section \<open>Properties\<close>

subsection \<open>A new object, field by field\<close>

lemma new_stick_fields:
  "buffer (new_stick m) = \<lparr>maxsize = m, items = []\<rparr>"
  "warned (new_stick m) = []"
  "closing (new_stick m) = False"
  "callbacks (new_stick m) = []"
  "callbacks_thread (new_stick m) = None"
  "read_thread (new_stick m) = Some ReadThread"
  "started (new_stick m) = [ReadThread]"
  "joined (new_stick m) = []"
  "called (new_stick m) = []"
  "callbacks_close (new_stick m) = False"
  "rotate_attr (new_stick m) = None"
  "rotation_attr (new_stick m) = None"
  by (simp_all add: new_stick_def Thread_start_def Queue_init_def)

lemmas model_defs =
  when_up_def when_down_def when_left_def when_right_def when_enter_def set_when_def
  start_stop_callbacks_def Thread_start_def Thread_join_def new_stick_def Queue_init_def
  dispatch_threads_def is_dispatch_def Let_def

subsection \<open>The reader thread\<close>

lemma tables:
  "map_of direction_table c =
     (if c = 103 then Some ''up'' else if c = 108 then Some ''down''
      else if c = 105 then Some ''left'' else if c = 106 then Some ''right''
      else if c = 28 then Some ''enter'' else None)"
  "map_of action_table v =
     (if v = 1 then Some ''pressed'' else if v = 0 then Some ''released''
      else if v = 2 then Some ''held'' else None)"
  by (simp_all add: direction_table_def action_table_def KEY_UP_def KEY_DOWN_def KEY_LEFT_def
      KEY_RIGHT_def KEY_ENTER_def STATE_PRESS_def STATE_RELEASE_def STATE_HOLD_def)

lemma make_room_eq:
  "make_room s =
     (Return (),
      if Queue_full (buffer s)
      then s\<lparr>buffer := (buffer s)\<lparr>items := tl (items (buffer s))\<rparr>,
             warned := warned s @ [SenseStickBufferFull]\<rparr>
      else s)"
  by (auto simp: make_room_def Queue_full_def Queue_get_def warn_def Let_def split: list.splits)

lemma Queue_put_room:
  "maxsize q \<le> 0 \<or> int (length (items q)) < maxsize q \<Longrightarrow>
     Queue_put x q = (Return (), q\<lparr>items := items q @ [x]\<rparr>)"
  by (auto simp: Queue_put_def Queue_full_def)

lemma read_stick_record_other:
  "ev_type r \<noteq> EV_KEY \<Longrightarrow> read_stick_record fl r s = (Return (), s)"
  by (simp add: read_stick_record_def)

lemma read_stick_record_raise:
  "ev_type r = EV_KEY \<Longrightarrow> make_event fl r = Raise e \<Longrightarrow>
     read_stick_record fl r s = (Raise e, snd (make_room s))"
  by (simp add: read_stick_record_def make_room_eq)

lemma read_stick_record_put:
  assumes "ev_type r = EV_KEY" and "make_event fl r = Return ev"
    and "maxsize (buffer s) \<le> 0 \<or> int (length (items (buffer s))) \<le> maxsize (buffer s)"
  shows "read_stick_record fl r s =
     (Return (),
      (snd (make_room s))\<lparr>buffer :=
         (buffer (snd (make_room s)))\<lparr>items := items (buffer (snd (make_room s))) @ [ev]\<rparr>\<rparr>)"
proof -
  obtain s1 where mr: "make_room s = (Return (), s1)"
    by (simp add: make_room_eq)
  have "maxsize (buffer s1) \<le> 0 \<or> int (length (items (buffer s1))) < maxsize (buffer s1)"
    using assms(3) mr by (auto simp: make_room_eq Queue_full_def)
  then have "Queue_put ev (buffer s1) = (Return (), (buffer s1)\<lparr>items := items (buffer s1) @ [ev]\<rparr>)"
    by (rule Queue_put_room)
  then show ?thesis
    using assms(1,2) by (simp add: read_stick_record_def mr)
qed

lemma make_event_cases:
  "make_event fl r =
     (case map_of direction_table (ev_code r) of
        None \<Rightarrow> Raise KeyError
      | Some d \<Rightarrow>
          (case map_of action_table (ev_value r) of
             None \<Rightarrow> Raise KeyError
           | Some a \<Rightarrow>
               Return \<lparr>timestamp = add_float fl (tv_sec r) (truediv fl (tv_usec r) 1000000),
                       direction = d, action = a\<rparr>))"
  by (simp add: make_event_def)

text \<open>
  C6: the two tables are the five directions and the three actions; a record of another
  type is discarded; a key record with an unmapped code or value raises \<^verbatim>\<open>KeyError\<close>;
  any other key record is parsed into the event with the mapped direction and action and
  the timestamp that \<^verbatim>\<open>tv_sec + (tv_usec / 1000000)\<close> gives in Python's arithmetic, and
  that event is appended to the buffer (after the eviction of \<open>make_room\<close> when the
  buffer was full).
\<close>

theorem read_stick_record_key_event:
  "map_of direction_table c =
     (if c = 103 then Some ''up'' else if c = 108 then Some ''down''
      else if c = 105 then Some ''left'' else if c = 106 then Some ''right''
      else if c = 28 then Some ''enter'' else None) \<and>
   map_of action_table v =
     (if v = 1 then Some ''pressed'' else if v = 0 then Some ''released''
      else if v = 2 then Some ''held'' else None) \<and>
   (ev_type r \<noteq> EV_KEY \<longrightarrow> read_stick_record fl r s = (Return (), s)) \<and>
   (ev_type r = EV_KEY \<longrightarrow>
      (case map_of direction_table (ev_code r) of
         None \<Rightarrow> fst (read_stick_record fl r s) = Raise KeyError
       | Some d \<Rightarrow>
           (case map_of action_table (ev_value r) of
              None \<Rightarrow> fst (read_stick_record fl r s) = Raise KeyError
            | Some a \<Rightarrow>
                (maxsize (buffer s) \<le> 0 \<or> int (length (items (buffer s))) \<le> maxsize (buffer s) \<longrightarrow>
                 read_stick_record fl r s =
                   (Return (),
                    (snd (make_room s))\<lparr>buffer :=
                       (buffer (snd (make_room s)))\<lparr>items :=
                          items (buffer (snd (make_room s))) @
                          [\<lparr>timestamp = add_float fl (tv_sec r) (truediv fl (tv_usec r) 1000000),
                            direction = d, action = a\<rparr>]\<rparr>\<rparr>)))))"
proof (intro conjI impI)
  show "map_of direction_table c =
     (if c = 103 then Some ''up'' else if c = 108 then Some ''down''
      else if c = 105 then Some ''left'' else if c = 106 then Some ''right''
      else if c = 28 then Some ''enter'' else None)"
    by (rule tables)
  show "map_of action_table v =
     (if v = 1 then Some ''pressed'' else if v = 0 then Some ''released''
      else if v = 2 then Some ''held'' else None)"
    by (rule tables)
next
  assume "ev_type r \<noteq> EV_KEY"
  then show "read_stick_record fl r s = (Return (), s)"
    by (rule read_stick_record_other)
next
  assume key: "ev_type r = EV_KEY"
  show "case map_of direction_table (ev_code r) of
         None \<Rightarrow> fst (read_stick_record fl r s) = Raise KeyError
       | Some d \<Rightarrow>
           (case map_of action_table (ev_value r) of
              None \<Rightarrow> fst (read_stick_record fl r s) = Raise KeyError
            | Some a \<Rightarrow>
                (maxsize (buffer s) \<le> 0 \<or> int (length (items (buffer s))) \<le> maxsize (buffer s) \<longrightarrow>
                 read_stick_record fl r s =
                   (Return (),
                    (snd (make_room s))\<lparr>buffer :=
                       (buffer (snd (make_room s)))\<lparr>items :=
                          items (buffer (snd (make_room s))) @
                          [\<lparr>timestamp = add_float fl (tv_sec r) (truediv fl (tv_usec r) 1000000),
                            direction = d, action = a\<rparr>]\<rparr>\<rparr>)))"
  proof (cases "map_of direction_table (ev_code r)")
    case None
    then have "make_event fl r = Raise KeyError" by (simp add: make_event_cases)
    with key None show ?thesis by (simp add: read_stick_record_raise)
  next
    case (Some d)
    note d = this
    show ?thesis
    proof (cases "map_of action_table (ev_value r)")
      case None
      with d have "make_event fl r = Raise KeyError" by (simp add: make_event_cases)
      with key d None show ?thesis by (simp add: read_stick_record_raise)
    next
      case (Some a)
      with d have "make_event fl r =
         Return \<lparr>timestamp = add_float fl (tv_sec r) (truediv fl (tv_usec r) 1000000),
                 direction = d, action = a\<rparr>"
        by (simp add: make_event_cases)
      with key d Some show ?thesis
        by (simp add: read_stick_record_put)
    qed
  qed
qed


theorem read_stick_record_key_event_witness:
  "\<forall>fl.
     read_stick_record fl \<lparr>tv_sec = 1700000000, tv_usec = 123456, ev_type = 1, ev_code = 108, ev_value = 1\<rparr>
       (new_stick 100) =
       (Return (), (new_stick 100)\<lparr>buffer := \<lparr>maxsize = 100, items =
          [\<lparr>timestamp = add_float fl 1700000000 (truediv fl 123456 1000000),
            direction = ''down'', action = ''pressed''\<rparr>]\<rparr>\<rparr>) \<and>
     read_stick_record fl \<lparr>tv_sec = 5, tv_usec = 250000, ev_type = 0, ev_code = 108, ev_value = 1\<rparr>
       (new_stick 100) = (Return (), new_stick 100) \<and>
     fst (read_stick_record fl \<lparr>tv_sec = 5, tv_usec = 250000, ev_type = 1, ev_code = 30, ev_value = 1\<rparr>
       (new_stick 100)) = Raise KeyError \<and>
     fst (read_stick_record fl \<lparr>tv_sec = 5, tv_usec = 250000, ev_type = 1, ev_code = 108, ev_value = 3\<rparr>
       (new_stick 100)) = Raise KeyError"
proof (intro allI conjI)
  fix fl :: arith
  have mr: "snd (make_room (new_stick 100)) = new_stick 100"
    by (simp add: make_room_eq Queue_full_def new_stick_fields)
  show "read_stick_record fl \<lparr>tv_sec = 1700000000, tv_usec = 123456, ev_type = 1, ev_code = 108, ev_value = 1\<rparr>
       (new_stick 100) =
       (Return (), (new_stick 100)\<lparr>buffer := \<lparr>maxsize = 100, items =
          [\<lparr>timestamp = add_float fl 1700000000 (truediv fl 123456 1000000),
            direction = ''down'', action = ''pressed''\<rparr>]\<rparr>\<rparr>)"
    using read_stick_record_key_event [of 108 1
        "\<lparr>tv_sec = 1700000000, tv_usec = 123456, ev_type = 1, ev_code = 108, ev_value = 1\<rparr>"
        fl "new_stick 100"]
    by (simp add: EV_KEY_def mr new_stick_fields tables)
  show "read_stick_record fl \<lparr>tv_sec = 5, tv_usec = 250000, ev_type = 0, ev_code = 108, ev_value = 1\<rparr>
       (new_stick 100) = (Return (), new_stick 100)"
    using read_stick_record_key_event [of 108 1
        "\<lparr>tv_sec = 5, tv_usec = 250000, ev_type = 0, ev_code = 108, ev_value = 1\<rparr>" fl "new_stick 100"]
    by (simp add: EV_KEY_def)
  show "fst (read_stick_record fl \<lparr>tv_sec = 5, tv_usec = 250000, ev_type = 1, ev_code = 30, ev_value = 1\<rparr>
       (new_stick 100)) = Raise KeyError"
    using read_stick_record_key_event [of 30 1
        "\<lparr>tv_sec = 5, tv_usec = 250000, ev_type = 1, ev_code = 30, ev_value = 1\<rparr>" fl "new_stick 100"]
    by (simp add: EV_KEY_def tables)
  show "fst (read_stick_record fl \<lparr>tv_sec = 5, tv_usec = 250000, ev_type = 1, ev_code = 108, ev_value = 3\<rparr>
       (new_stick 100)) = Raise KeyError"
    using read_stick_record_key_event [of 108 3
        "\<lparr>tv_sec = 5, tv_usec = 250000, ev_type = 1, ev_code = 108, ev_value = 3\<rparr>" fl "new_stick 100"]
    by (simp add: EV_KEY_def tables)
qed

lemma read_stick_record_push:
  assumes "ev_type r = EV_KEY" and "make_event fl r = Return ev"
    and "0 < C" and "maxsize (buffer s) = int C" and "length (items (buffer s)) \<le> C"
  shows "read_stick_record fl r s =
     (Return (),
      s\<lparr>buffer := (buffer s)\<lparr>items :=
             drop (Suc (length (items (buffer s))) - C) (items (buffer s) @ [ev])\<rparr>,
        warned := warned s @ replicate (Suc (length (items (buffer s))) - C) SenseStickBufferFull\<rparr>)"
proof (cases "length (items (buffer s)) = C")
  case True
  then have full: "Queue_full (buffer s)"
    using assms(3,4) by (simp add: Queue_full_def)
  from True assms(3) obtain x xs where xs: "items (buffer s) = x # xs"
    by (cases "items (buffer s)") auto
  have "maxsize (buffer s) \<le> 0 \<or> int (length (items (buffer s))) \<le> maxsize (buffer s)"
    using assms(4,5) by simp
  from read_stick_record_put [OF assms(1,2) this] True full xs show ?thesis
    by (simp add: make_room_eq)
next
  case False
  then have nfull: "\<not> Queue_full (buffer s)"
    using assms(4,5) by (simp add: Queue_full_def)
  have "maxsize (buffer s) \<le> 0 \<or> int (length (items (buffer s))) \<le> maxsize (buffer s)"
    using assms(4,5) by simp
  from read_stick_record_put [OF assms(1,2) this] False nfull assms(5) show ?thesis
    by (simp add: make_room_eq)
qed

lemma drop_step:
  assumes "k1 \<le> length ys" and "k2 + k1 = k"
  shows "drop k2 (drop k1 ys @ zs) = drop k (ys @ zs)"
proof -
  have "drop k1 ys @ zs = drop k1 (ys @ zs)"
    using assms(1) by simp
  then have "drop k2 (drop k1 ys @ zs) = drop k2 (drop k1 (ys @ zs))"
    by (simp only:)
  also have "\<dots> = drop (k2 + k1) (ys @ zs)"
    by (rule drop_drop)
  finally show ?thesis
    by (simp only: assms(2))
qed

lemma read_stick_pushes:
  assumes "0 < C"
  shows "maxsize (buffer s) = int C \<Longrightarrow> length (items (buffer s)) \<le> C \<Longrightarrow> \<not> closing s \<Longrightarrow>
     \<forall>r \<in> set rs. ev_type r = EV_KEY \<Longrightarrow> map (make_event fl) rs = map Return evs \<Longrightarrow>
     read_stick fl rs s =
       (Return (),
        s\<lparr>buffer := (buffer s)\<lparr>items :=
               drop (length (items (buffer s)) + length rs - C) (items (buffer s) @ evs)\<rparr>,
          warned := warned s @
               replicate (length (items (buffer s)) + length rs - C) SenseStickBufferFull\<rparr>)"
proof (induction rs arbitrary: s evs)
  case Nil
  then show ?case by simp
next
  case (Cons r rs)
  from Cons.prems(5) obtain ev evs1 where evs: "evs = ev # evs1"
    and ev: "make_event fl r = Return ev" and evs1: "map (make_event fl) rs = map Return evs1"
    by (cases evs) auto
  from Cons.prems(4) have key: "ev_type r = EV_KEY" and keys: "\<forall>r \<in> set rs. ev_type r = EV_KEY"
    by simp_all
  let ?n = "length (items (buffer s))"
  let ?k1 = "Suc ?n - C"
  let ?k2 = "min (Suc ?n) C + length rs - C"
  let ?k = "?n + length (r # rs) - C"
  define s1 where "s1 = s\<lparr>buffer := (buffer s)\<lparr>items := drop ?k1 (items (buffer s) @ [ev])\<rparr>,
        warned := warned s @ replicate ?k1 SenseStickBufferFull\<rparr>"
  have step: "read_stick_record fl r s = (Return (), s1)"
    unfolding s1_def by (rule read_stick_record_push [OF key ev assms Cons.prems(1,2)])
  have i1: "items (buffer s1) = drop ?k1 (items (buffer s) @ [ev])"
    and w1: "warned s1 = warned s @ replicate ?k1 SenseStickBufferFull"
    and m1: "maxsize (buffer s1) = int C"
    and c1: "\<not> closing s1"
    using Cons.prems(1,3) by (simp_all add: s1_def)
  have l1: "length (items (buffer s1)) = min (Suc ?n) C"
    using Cons.prems(2) by (simp add: i1 del: drop_append)
  then have l1': "length (items (buffer s1)) \<le> C" by simp
  have l1b: "length (drop ?k1 (items (buffer s) @ [ev])) = min (Suc ?n) C"
    using l1 by (simp only: i1)
  have upd: "s1\<lparr>buffer := (buffer s1)\<lparr>items := A\<rparr>, warned := W\<rparr> =
             s\<lparr>buffer := (buffer s)\<lparr>items := A\<rparr>, warned := W\<rparr>" for A W
    by (simp add: s1_def)
  have a: "?k2 + ?k1 = ?k"
    using Cons.prems(2) by auto
  have drop_eq: "drop ?k2 (drop ?k1 (items (buffer s) @ [ev]) @ evs1) = drop ?k (items (buffer s) @ evs)"
  proof -
    have "?k1 \<le> length (items (buffer s) @ [ev])" by simp
    from drop_step [OF this a, of evs1] show ?thesis
      by (simp only: evs append_assoc append_Cons append_Nil)
  qed
  have rep_eq: "(warned s @ replicate ?k1 SenseStickBufferFull) @ replicate ?k2 SenseStickBufferFull
      = warned s @ replicate ?k SenseStickBufferFull"
    unfolding a [symmetric] by (simp add: replicate_add [symmetric] add.commute)
  have "read_stick fl (r # rs) s = read_stick fl rs s1"
    using Cons.prems(3) step by simp
  also have "\<dots> = (Return (),
        s1\<lparr>buffer := (buffer s1)\<lparr>items :=
               drop (length (items (buffer s1)) + length rs - C) (items (buffer s1) @ evs1)\<rparr>,
          warned := warned s1 @
               replicate (length (items (buffer s1)) + length rs - C) SenseStickBufferFull\<rparr>)"
    by (rule Cons.IH [OF m1 l1' c1 keys evs1])
  also have "\<dots> = (Return (),
        s\<lparr>buffer := (buffer s)\<lparr>items := drop ?k (items (buffer s) @ evs)\<rparr>,
          warned := warned s @ replicate ?k SenseStickBufferFull\<rparr>)"
    by (simp only: upd l1 l1b i1 w1 drop_eq rep_eq)
  finally show ?case .
qed


text \<open>
  C3: the reader, started on an empty buffer of capacity \<open>C > 0\<close> and given \<open>N > C\<close>
  key records, returns with the buffer holding exactly the last \<open>C\<close> events in their
  order and with exactly \<open>N - C\<close> buffer-full warnings issued; after every prefix of
  the records the buffer holds at most \<open>C\<close> events.
\<close>

theorem read_stick_overflow:
  assumes "0 < C" and "C < length rs"
    and "\<forall>r \<in> set rs. ev_type r = EV_KEY" and "map (make_event fl) rs = map Return evs"
    and "maxsize (buffer s) = int C" and "items (buffer s) = []" and "\<not> closing s"
  shows "read_stick fl rs s =
           (Return (),
            s\<lparr>buffer := (buffer s)\<lparr>items := drop (length rs - C) evs\<rparr>,
              warned := warned s @ replicate (length rs - C) SenseStickBufferFull\<rparr>) \<and>
         length (drop (length rs - C) evs) = C \<and>
         (\<forall>k \<le> length rs. length (items (buffer (snd (read_stick fl (take k rs) s)))) \<le> C)"
proof (intro conjI allI impI)
  have len: "length evs = length rs"
    using assms(4) by (metis length_map)
  have l0: "length (items (buffer s)) \<le> C"
    using assms(6) by simp
  from read_stick_pushes [OF assms(1,5) l0 assms(7,3,4)]
  show "read_stick fl rs s =
           (Return (),
            s\<lparr>buffer := (buffer s)\<lparr>items := drop (length rs - C) evs\<rparr>,
              warned := warned s @ replicate (length rs - C) SenseStickBufferFull\<rparr>)"
    by (simp add: assms(6))
  show "length (drop (length rs - C) evs) = C"
    using assms(2) len by simp
  fix k assume k: "k \<le> length rs"
  have keys: "\<forall>r \<in> set (take k rs). ev_type r = EV_KEY"
    using assms(3) by (meson in_set_takeD)
  have evs: "map (make_event fl) (take k rs) = map Return (take k evs)"
    using arg_cong [OF assms(4), of "take k"] by (simp only: take_map)
  from read_stick_pushes [OF assms(1,5) l0 assms(7) keys evs]
  show "length (items (buffer (snd (read_stick fl (take k rs) s)))) \<le> C"
    using k len by (simp add: assms(6))
qed

theorem read_stick_overflow_witness:
  "\<forall>fl. read_stick fl
     [\<lparr>tv_sec = 1, tv_usec = 0, ev_type = 1, ev_code = 103, ev_value = 1\<rparr>,
      \<lparr>tv_sec = 2, tv_usec = 0, ev_type = 1, ev_code = 103, ev_value = 2\<rparr>,
      \<lparr>tv_sec = 3, tv_usec = 0, ev_type = 1, ev_code = 103, ev_value = 0\<rparr>]
     (new_stick 2) =
   (Return (),
    (new_stick 2)\<lparr>buffer := \<lparr>maxsize = 2, items =
        [\<lparr>timestamp = add_float fl 2 (truediv fl 0 1000000), direction = ''up'', action = ''held''\<rparr>,
         \<lparr>timestamp = add_float fl 3 (truediv fl 0 1000000), direction = ''up'',
           action = ''released''\<rparr>]\<rparr>,
      warned := [SenseStickBufferFull]\<rparr>)"
proof
  fix fl :: arith
  let ?rs = "[\<lparr>tv_sec = 1, tv_usec = 0, ev_type = 1, ev_code = 103, ev_value = 1\<rparr>,
      \<lparr>tv_sec = 2, tv_usec = 0, ev_type = 1, ev_code = 103, ev_value = 2\<rparr>,
      \<lparr>tv_sec = 3, tv_usec = 0, ev_type = 1, ev_code = 103, ev_value = 0\<rparr>]"
  let ?evs = "[\<lparr>timestamp = add_float fl 1 (truediv fl 0 1000000), direction = ''up'', action = ''pressed''\<rparr>,
         \<lparr>timestamp = add_float fl 2 (truediv fl 0 1000000), direction = ''up'', action = ''held''\<rparr>,
         \<lparr>timestamp = add_float fl 3 (truediv fl 0 1000000), direction = ''up'', action = ''released''\<rparr>]"
  have 1: "(0::nat) < 2" by simp
  have 2: "2 < length ?rs" by simp
  have 3: "\<forall>r \<in> set ?rs. ev_type r = EV_KEY" by (simp add: EV_KEY_def)
  have 4: "map (make_event fl) ?rs = map Return ?evs"
    by (simp add: make_event_cases tables)
  have 5: "maxsize (buffer (new_stick 2)) = int 2" by (simp add: new_stick_fields)
  have 6: "items (buffer (new_stick 2)) = []" by (simp add: new_stick_fields)
  have 7: "\<not> closing (new_stick 2)" by (simp add: new_stick_fields)
  from read_stick_overflow [OF 1 2 3 4 5 6 7] show "read_stick fl ?rs (new_stick 2) =
   (Return (),
    (new_stick 2)\<lparr>buffer := \<lparr>maxsize = 2, items =
        [\<lparr>timestamp = add_float fl 2 (truediv fl 0 1000000), direction = ''up'', action = ''held''\<rparr>,
         \<lparr>timestamp = add_float fl 3 (truediv fl 0 1000000), direction = ''up'',
           action = ''released''\<rparr>]\<rparr>,
      warned := [SenseStickBufferFull]\<rparr>)"
    by (simp add: new_stick_fields)
qed

lemma read_stick_record_rotate:
  "fst (read_stick_record fl r (s\<lparr>rotate_attr := v\<rparr>)) = fst (read_stick_record fl r s) \<and>
   snd (read_stick_record fl r (s\<lparr>rotate_attr := v\<rparr>)) = (snd (read_stick_record fl r s))\<lparr>rotate_attr := v\<rparr>"
  by (simp add: read_stick_record_def make_room_eq Queue_put_def split: outcome.splits)

text \<open>
  C4: \<^verbatim>\<open>_read_stick\<close> never reads \<^verbatim>\<open>_rotate\<close>: the state a record leads to is the same
  whatever the stored rotation, up to that attribute. With \<^verbatim>\<open>rotate = 90\<close> the record
  of code 103 is parsed to the direction \<^verbatim>\<open>up\<close>, exactly as with \<^verbatim>\<open>rotate = 0\<close>.
\<close>

theorem read_stick_ignores_rotate:
  "read_stick fl [\<lparr>tv_sec = 6, tv_usec = 0, ev_type = 1, ev_code = 103, ev_value = 1\<rparr>]
      (snd (set_rotate 90 (new_stick 100))) =
     (Return (), (new_stick 100)\<lparr>rotate_attr := Some 90, buffer := \<lparr>maxsize = 100, items =
        [\<lparr>timestamp = add_float fl 6 (truediv fl 0 1000000), direction = ''up'', action = ''pressed''\<rparr>]\<rparr>\<rparr>) \<and>
   read_stick fl [\<lparr>tv_sec = 6, tv_usec = 0, ev_type = 1, ev_code = 103, ev_value = 1\<rparr>]
      (snd (set_rotate 0 (new_stick 100))) =
     (Return (), (new_stick 100)\<lparr>rotate_attr := Some 0, buffer := \<lparr>maxsize = 100, items =
        [\<lparr>timestamp = add_float fl 6 (truediv fl 0 1000000), direction = ''up'', action = ''pressed''\<rparr>]\<rparr>\<rparr>)"
  by (simp add: set_rotate_def new_stick_fields read_stick_record_def EV_KEY_def make_room_eq
      Queue_full_def make_event_cases tables Queue_put_def)

subsection \<open>The callback registry and the dispatch thread\<close>

lemma threads_ok_new_stick: "threads_ok (new_stick m)"
  by (simp add: threads_ok_def dispatch_threads_def is_dispatch_def new_stick_fields)

lemma threads_ok_callbacks: "threads_ok (s\<lparr>callbacks := cs\<rparr>) = threads_ok s"
  by (simp add: threads_ok_def dispatch_threads_def)

lemma fresh_thread:
  assumes "threads_ok s"
  shows "CallbacksThread (length (started s)) \<notin> set (started s)"
    and "CallbacksThread (length (started s)) \<notin> set (joined s)"
proof -
  show a: "CallbacksThread (length (started s)) \<notin> set (started s)"
    using assms by (auto simp: threads_ok_def list_all_iff)
  show "CallbacksThread (length (started s)) \<notin> set (joined s)"
    using assms a by (auto simp: threads_ok_def list_all_iff)
qed

lemma start_stop_callbacks_start:
  assumes "callbacks s \<noteq> []" and "callbacks_thread s = None"
  shows "start_stop_callbacks s =
     s\<lparr>callbacks_close := False,
       callbacks_thread := Some (CallbacksThread (length (started s))),
       started := started s @ [CallbacksThread (length (started s))]\<rparr>"
  using assms by (simp add: start_stop_callbacks_def Thread_start_def Let_def)

lemma start_stop_callbacks_stop:
  assumes "callbacks s = []" and "callbacks_thread s = Some t"
  shows "start_stop_callbacks s =
     s\<lparr>callbacks_close := True, joined := joined s @ [t], callbacks_thread := None\<rparr>"
  using assms by (simp add: start_stop_callbacks_def Thread_join_def Let_def)

lemma start_stop_callbacks_keep:
  assumes "(callbacks s = []) = (callbacks_thread s = None)"
  shows "start_stop_callbacks s = s"
  using assms by (auto simp: start_stop_callbacks_def)

lemma threads_ok_stop:
  assumes ok: "threads_ok s" and th: "callbacks_thread s = Some t"
  shows "threads_ok (s\<lparr>callbacks_close := True, joined := joined s @ [t], callbacks_thread := None\<rparr>)"
proof -
  from ok th have dt: "dispatch_threads s = [t]"
    by (simp add: threads_ok_def)
  have "set (dispatch_threads s) = {t}"
    by (simp add: dt)
  then have only: "\<forall>x \<in> set (started s). is_dispatch x \<and> x \<notin> set (joined s) \<longrightarrow> x = t"
    and tin: "t \<in> set (started s)"
    by (auto simp: dispatch_threads_def)
  from only have 1: "filter (\<lambda>x. is_dispatch x \<and> x \<notin> set (joined s @ [t])) (started s) = []"
    by (auto simp: filter_empty_conv)
  from ok have 2: "list_all (thread_below (length (started s))) (started s)"
    by (simp add: threads_ok_def)
  from ok tin have 3: "list_all (\<lambda>x. x \<in> set (started s)) (joined s @ [t])"
    by (simp add: threads_ok_def)
  from 1 2 3 show ?thesis
    by (simp add: threads_ok_def dispatch_threads_def)
qed

lemma thread_below_Suc: "thread_below k x \<Longrightarrow> thread_below (Suc k) x"
  by (cases x) auto

lemma threads_ok_start:
  assumes ok: "threads_ok s" and th: "callbacks_thread s = None"
  shows "threads_ok (s\<lparr>callbacks_close := False,
       callbacks_thread := Some (CallbacksThread (length (started s))),
       started := started s @ [CallbacksThread (length (started s))]\<rparr>)"
proof -
  let ?t = "CallbacksThread (length (started s))"
  from ok th have "dispatch_threads s = []"
    by (simp add: threads_ok_def)
  then have dt: "filter (\<lambda>x. is_dispatch x \<and> x \<notin> set (joined s)) (started s) = []"
    by (simp add: dispatch_threads_def)
  note fr = fresh_thread [OF ok]
  have 1: "filter (\<lambda>x. is_dispatch x \<and> x \<notin> set (joined s)) (started s @ [?t]) = [?t]"
    using dt fr(2) by (simp add: is_dispatch_def)
  from ok have "list_all (thread_below (length (started s))) (started s)"
    by (simp add: threads_ok_def)
  then have 2: "list_all (thread_below (length (started s @ [?t]))) (started s @ [?t])"
    by (auto simp: list_all_iff intro: thread_below_Suc)
  from ok have "list_all (\<lambda>x. x \<in> set (started s)) (joined s)"
    by (simp add: threads_ok_def)
  then have 3: "list_all (\<lambda>x. x \<in> set (started s @ [?t])) (joined s)"
    by (auto simp: list_all_iff)
  from 1 2 3 show ?thesis
    by (simp add: threads_ok_def dispatch_threads_def)
qed

lemma threads_ok_start_stop:
  assumes "threads_ok s"
  shows "threads_ok (start_stop_callbacks s) \<and>
     (callbacks (start_stop_callbacks s) = []) = (callbacks_thread (start_stop_callbacks s) = None)"
proof (cases "callbacks s = []")
  case True
  show ?thesis
  proof (cases "callbacks_thread s")
    case None
    with True assms show ?thesis by (simp add: start_stop_callbacks_keep)
  next
    case (Some t)
    from threads_ok_stop [OF assms Some] True show ?thesis
      by (simp add: start_stop_callbacks_stop [OF True Some])
  qed
next
  case False
  show ?thesis
  proof (cases "callbacks_thread s")
    case None
    from threads_ok_start [OF assms None] False show ?thesis
      by (simp add: start_stop_callbacks_start [OF False None])
  next
    case (Some t)
    with False assms show ?thesis by (simp add: start_stop_callbacks_keep)
  qed
qed

lemma threads_ok_set_when:
  assumes "threads_ok s"
  shows "threads_ok (set_when key v s) \<and>
     (callbacks (set_when key v s) = []) = (callbacks_thread (set_when key v s) = None)"
  unfolding set_when_def
  by (rule threads_ok_start_stop) (simp add: threads_ok_callbacks assms split: option.splits)

lemma assign_set_when: "\<exists>key v. assign a s = set_when key v s"
  by (cases a) (auto simp: when_up_def when_down_def when_left_def when_right_def when_enter_def)

lemma registry_ok_assign: "registry_ok s \<Longrightarrow> registry_ok (assign a s)"
  using assign_set_when [of a s] threads_ok_set_when
  by (auto simp: registry_ok_def)

lemma registry_ok_assign_all: "registry_ok s \<Longrightarrow> registry_ok (assign_all ops s)"
  by (induction ops arbitrary: s) (simp_all add: registry_ok_assign)

lemma registry_ok_new_stick: "registry_ok (new_stick m)"
  by (simp add: registry_ok_def threads_ok_new_stick new_stick_fields)

lemma start_stop_callbacks_fields:
  "callbacks (start_stop_callbacks s) = callbacks s"
  "read_thread (start_stop_callbacks s) = read_thread s"
  by (simp_all add: start_stop_callbacks_def Thread_start_def Thread_join_def Let_def
      split: option.splits)

lemma set_when_cases:
  assumes ok: "registry_ok s"
  shows "set_when key v s =
     (if callbacks s = [] \<and> callbacks (set_when key v s) \<noteq> [] then
        s\<lparr>callbacks := callbacks (set_when key v s), callbacks_close := False,
          callbacks_thread := Some (CallbacksThread (length (started s))),
          started := started s @ [CallbacksThread (length (started s))]\<rparr>
      else if callbacks s \<noteq> [] \<and> callbacks (set_when key v s) = [] then
        s\<lparr>callbacks := [], callbacks_close := True,
          joined := joined s @ dispatch_threads s, callbacks_thread := None\<rparr>
      else s\<lparr>callbacks := callbacks (set_when key v s)\<rparr>)"
proof -
  define cs where "cs = (case v of Some h \<Rightarrow> AList.update key h (callbacks s)
                                  | None \<Rightarrow> AList.delete key (callbacks s))"
  define s0 where "s0 = s\<lparr>callbacks := cs\<rparr>"
  have sw: "set_when key v s = start_stop_callbacks s0"
    by (simp add: set_when_def s0_def cs_def split: option.splits)
  have cb: "callbacks (set_when key v s) = cs"
    by (simp add: sw start_stop_callbacks_fields s0_def)
  have f0: "callbacks s0 = cs" "callbacks_thread s0 = callbacks_thread s" "started s0 = started s"
    by (simp_all add: s0_def)
  from ok have emp: "(callbacks s = []) = (callbacks_thread s = None)"
    and dt: "dispatch_threads s = (case callbacks_thread s of None \<Rightarrow> [] | Some t \<Rightarrow> [t])"
    by (simp_all add: registry_ok_def threads_ok_def)
  show ?thesis
  proof (cases "callbacks s = []")
    case True
    with emp have none: "callbacks_thread s0 = None" by (simp add: f0)
    show ?thesis
    proof (cases "cs = []")
      case True
      with none have "start_stop_callbacks s0 = s0"
        by (simp add: start_stop_callbacks_keep f0)
      with True \<open>callbacks s = []\<close> show ?thesis
        by (simp add: cb sw s0_def)
    next
      case False
      then have "callbacks s0 \<noteq> []" by (simp add: f0)
      from start_stop_callbacks_start [OF this none] False \<open>callbacks s = []\<close> show ?thesis
        by (simp add: cb sw s0_def)
    qed
  next
    case False
    with emp obtain t where t: "callbacks_thread s = Some t" by auto
    then have some: "callbacks_thread s0 = Some t" by (simp add: f0)
    show ?thesis
    proof (cases "cs = []")
      case True
      then have "callbacks s0 = []" by (simp add: f0)
      from start_stop_callbacks_stop [OF this some] True False dt t show ?thesis
        by (simp add: cb sw s0_def)
    next
      case False
      with some have "start_stop_callbacks s0 = s0"
        by (simp add: start_stop_callbacks_keep f0)
      with False \<open>callbacks s \<noteq> []\<close> show ?thesis
        by (simp add: cb sw s0_def)
    qed
  qed
qed

lemma assign_cases:
  assumes ok: "registry_ok s"
  shows "assign a s =
     (if callbacks s = [] \<and> callbacks (assign a s) \<noteq> [] then
        s\<lparr>callbacks := callbacks (assign a s), callbacks_close := False,
          callbacks_thread := Some (CallbacksThread (length (started s))),
          started := started s @ [CallbacksThread (length (started s))]\<rparr>
      else if callbacks s \<noteq> [] \<and> callbacks (assign a s) = [] then
        s\<lparr>callbacks := [], callbacks_close := True,
          joined := joined s @ dispatch_threads s, callbacks_thread := None\<rparr>
      else s\<lparr>callbacks := callbacks (assign a s)\<rparr>)"
proof -
  obtain key v where "assign a s = set_when key v s"
    using assign_set_when by blast
  with set_when_cases [OF ok, of key v] show ?thesis
    by (simp only:)
qed

lemma assign_callbacks:
  "callbacks (assign a s) =
     (case a of
        When_up v \<Rightarrow> (case v of Some h \<Rightarrow> AList.update ''up'' h (callbacks s)
                               | None \<Rightarrow> AList.delete ''up'' (callbacks s))
      | When_down v \<Rightarrow> (case v of Some h \<Rightarrow> AList.update ''down'' h (callbacks s)
                                 | None \<Rightarrow> AList.delete ''down'' (callbacks s))
      | When_left v \<Rightarrow> (case v of Some h \<Rightarrow> AList.update ''left'' h (callbacks s)
                                 | None \<Rightarrow> AList.delete ''left'' (callbacks s))
      | When_right v \<Rightarrow> (case v of Some h \<Rightarrow> AList.update ''right'' h (callbacks s)
                                  | None \<Rightarrow> AList.delete ''right'' (callbacks s))
      | When_enter v \<Rightarrow> (case v of Some h \<Rightarrow> AList.update ''enter'' h (callbacks s)
                                  | None \<Rightarrow> AList.delete ''enter'' (callbacks s)))"
  by (cases a)
     (simp_all add: when_up_def when_down_def when_left_def when_right_def when_enter_def
        set_when_def start_stop_callbacks_fields split: option.splits)

text \<open>
  The bookkeeping of the handle. After any sequence of assignments to the five
  properties on a new object, at most one dispatch thread is started and not joined;
  there is one exactly when the registry is not empty, and it is the one
  \<^verbatim>\<open>_callbacks_thread\<close> holds. One more assignment that takes the registry from empty to
  non-empty starts a new thread and clears the dispatcher's flag; one that empties it
  sets the flag, joins the thread and clears the handle; any other one changes the
  registry only. What an assignment does to the registry is \<open>assign_callbacks\<close>.
\<close>

lemma assign_all_dispatch_thread:
  "let s = assign_all ops (new_stick m); s' = assign a s in
     length (dispatch_threads s) \<le> 1 \<and>
     (dispatch_threads s = []) = (callbacks s = []) \<and>
     (callbacks_thread s = None) = (callbacks s = []) \<and>
     dispatch_threads s = (case callbacks_thread s of None \<Rightarrow> [] | Some t \<Rightarrow> [t]) \<and>
     (callbacks s = [] \<and> callbacks s' \<noteq> [] \<longrightarrow>
        s' = s\<lparr>callbacks := callbacks s', callbacks_close := False,
               callbacks_thread := Some (CallbacksThread (length (started s))),
               started := started s @ [CallbacksThread (length (started s))]\<rparr>) \<and>
     (callbacks s \<noteq> [] \<and> callbacks s' = [] \<longrightarrow>
        s' = s\<lparr>callbacks := [], callbacks_close := True,
               joined := joined s @ dispatch_threads s, callbacks_thread := None\<rparr>) \<and>
     ((callbacks s = []) = (callbacks s' = []) \<longrightarrow> s' = s\<lparr>callbacks := callbacks s'\<rparr>)"
proof -
  define s where "s = assign_all ops (new_stick m)"
  have ok: "registry_ok s"
    unfolding s_def by (rule registry_ok_assign_all [OF registry_ok_new_stick])
  then have emp: "(callbacks s = []) = (callbacks_thread s = None)"
    and dt: "dispatch_threads s = (case callbacks_thread s of None \<Rightarrow> [] | Some t \<Rightarrow> [t])"
    by (simp_all add: registry_ok_def threads_ok_def)
  have 1: "length (dispatch_threads s) \<le> 1"
    by (simp add: dt split: option.splits)
  have 2: "(dispatch_threads s = []) = (callbacks s = [])"
    by (simp add: dt emp split: option.splits)
  have 3: "(callbacks_thread s = None) = (callbacks s = [])"
    by (simp add: emp)
  note c = assign_cases [OF ok, of a]
  have 5: "callbacks s = [] \<and> callbacks (assign a s) \<noteq> [] \<longrightarrow>
        assign a s = s\<lparr>callbacks := callbacks (assign a s), callbacks_close := False,
               callbacks_thread := Some (CallbacksThread (length (started s))),
               started := started s @ [CallbacksThread (length (started s))]\<rparr>"
  proof
    assume h: "callbacks s = [] \<and> callbacks (assign a s) \<noteq> []"
    show "assign a s = s\<lparr>callbacks := callbacks (assign a s), callbacks_close := False,
               callbacks_thread := Some (CallbacksThread (length (started s))),
               started := started s @ [CallbacksThread (length (started s))]\<rparr>"
      using c unfolding if_P [OF h] .
  qed
  have 6: "callbacks s \<noteq> [] \<and> callbacks (assign a s) = [] \<longrightarrow>
        assign a s = s\<lparr>callbacks := [], callbacks_close := True,
               joined := joined s @ dispatch_threads s, callbacks_thread := None\<rparr>"
  proof
    assume h: "callbacks s \<noteq> [] \<and> callbacks (assign a s) = []"
    then have n: "\<not> (callbacks s = [] \<and> callbacks (assign a s) \<noteq> [])" by blast
    show "assign a s = s\<lparr>callbacks := [], callbacks_close := True,
               joined := joined s @ dispatch_threads s, callbacks_thread := None\<rparr>"
      using c unfolding if_not_P [OF n] if_P [OF h] .
  qed
  have 7: "(callbacks s = []) = (callbacks (assign a s) = []) \<longrightarrow>
        assign a s = s\<lparr>callbacks := callbacks (assign a s)\<rparr>"
  proof
    assume h: "(callbacks s = []) = (callbacks (assign a s) = [])"
    then have n1: "\<not> (callbacks s = [] \<and> callbacks (assign a s) \<noteq> [])"
      and n2: "\<not> (callbacks s \<noteq> [] \<and> callbacks (assign a s) = [])" by blast+
    show "assign a s = s\<lparr>callbacks := callbacks (assign a s)\<rparr>"
      using c unfolding if_not_P [OF n1] if_not_P [OF n2] .
  qed
  from 1 2 3 dt 5 6 7 show ?thesis
    unfolding Let_def s_def [symmetric] by (intro conjI)
qed


lemma assign_all_dispatch_thread_witness:
  "dispatch_threads (assign_all [When_up (Some (Handler 1)), When_down (Some (Handler 2))] (new_stick 100))
     = [CallbacksThread 1] \<and>
   callbacks (assign_all [When_up (Some (Handler 1)), When_down (Some (Handler 2))] (new_stick 100))
     = [(''up'', Handler 1), (''down'', Handler 2)] \<and>
   assign (When_left (Some (Handler 3))) (assign_all [] (new_stick 100)) =
     (new_stick 100)\<lparr>callbacks := [(''left'', Handler 3)], callbacks_close := False,
       callbacks_thread := Some (CallbacksThread 1),
       started := [ReadThread, CallbacksThread 1]\<rparr> \<and>
   assign (When_up None) (assign_all [When_up (Some (Handler 1))] (new_stick 100)) =
     (assign_all [When_up (Some (Handler 1))] (new_stick 100))\<lparr>callbacks := [],
       callbacks_close := True, joined := [CallbacksThread 1], callbacks_thread := None\<rparr>"
  using assign_all_dispatch_thread
      [of "[When_up (Some (Handler 1)), When_down (Some (Handler 2))]" 100 "When_up None"]
    assign_all_dispatch_thread [of "[]" 100 "When_left (Some (Handler 3))"]
    assign_all_dispatch_thread [of "[When_up (Some (Handler 1))]" 100 "When_up None"]
  by (simp add: model_defs)

subsection \<open>The dispatch loop\<close>

lemma run_callbacks_loop_raise:
  "\<not> callbacks_close s \<Longrightarrow> \<not> closing s \<Longrightarrow> run_callbacks_turn cb s = (Raise e, s1) \<Longrightarrow>
     run_callbacks_loop cb s = (Raise e, s1)"
  by (subst run_callbacks_loop.simps) simp

lemma run_callbacks_loop_step:
  "\<not> callbacks_close s \<Longrightarrow> \<not> closing s \<Longrightarrow> run_callbacks_turn cb s = (Return cb1, s1) \<Longrightarrow>
     run_callbacks_loop cb s = run_callbacks_loop cb1 s1"
  by (subst run_callbacks_loop.simps) simp

lemma run_callbacks_turn_empty:
  "items (buffer s) = [] \<Longrightarrow> run_callbacks_turn cb s = (Raise Empty, s)"
  by (simp add: run_callbacks_turn_def Queue_get_def)

lemma run_callbacks_turn_hit:
  "items (buffer s) = ev # evs \<Longrightarrow> map_of (callbacks s) (direction ev) = Some h \<Longrightarrow>
     run_callbacks_turn cb s =
       (Return (Some h), s\<lparr>buffer := (buffer s)\<lparr>items := evs\<rparr>, called := called s @ [(h, ev)]\<rparr>)"
  by (simp add: run_callbacks_turn_def Queue_get_def)

lemma run_callbacks_turn_miss_unbound:
  "items (buffer s) = ev # evs \<Longrightarrow> map_of (callbacks s) (direction ev) = None \<Longrightarrow>
     run_callbacks_turn None s = (Raise UnboundLocalError, s\<lparr>buffer := (buffer s)\<lparr>items := evs\<rparr>\<rparr>)"
  by (simp add: run_callbacks_turn_def Queue_get_def)

lemma run_callbacks_turn_miss_stale:
  "items (buffer s) = ev # evs \<Longrightarrow> map_of (callbacks s) (direction ev) = None \<Longrightarrow>
     run_callbacks_turn (Some h) s =
       (Return (Some h), s\<lparr>buffer := (buffer s)\<lparr>items := evs\<rparr>, called := called s @ [(h, ev)]\<rparr>)"
  by (simp add: run_callbacks_turn_def Queue_get_def)

lemma run_callbacks_loop_empty:
  "\<not> callbacks_close s \<Longrightarrow> \<not> closing s \<Longrightarrow> items (buffer s) = [] \<Longrightarrow>
     run_callbacks_loop cb s = (Raise Empty, s)"
  by (simp add: run_callbacks_loop_raise run_callbacks_turn_empty)

lemma read_empty_buffer:
  "0 \<le> t \<Longrightarrow> items (buffer s) = [] \<Longrightarrow> fst (read (Some t) s) = Return None"
  by (simp add: read_def Queue_get_def warn_def Let_def)


text \<open>
  C1: with a handler registered and the buffer empty, \<^verbatim>\<open>get(timeout=0.1)\<close> raises
  \<^verbatim>\<open>Empty\<close>, \<^verbatim>\<open>_run_callbacks\<close> does not catch it, and the loop of the dispatch thread
  ends with that exception. (\<^verbatim>\<open>read\<close> does catch it: \<open>read_empty_buffer\<close>.)
\<close>

theorem run_callbacks_empty_buffer:
  "run_callbacks (when_up (Some (Handler 0)) (new_stick 100)) =
     (Raise Empty, when_up (Some (Handler 0)) (new_stick 100))"
  unfolding run_callbacks_def
  by (rule run_callbacks_loop_empty) (simp_all add: model_defs)

text \<open>
  C7: one handler is assigned on a new object, and no event arrives. The assignment
  starts the dispatch thread \<open>CallbacksThread 1\<close>, the only one; the function that
  thread runs ends at once with \<^verbatim>\<open>Empty\<close>, so the thread is over while the registry
  still holds the handler and \<^verbatim>\<open>_callbacks_thread\<close> still holds the thread. A second
  assignment, of a handler for \<^verbatim>\<open>down\<close>, changes the registry and nothing else: no
  thread is started in its place.
\<close>

theorem dispatch_thread_over_registry_not_empty:
  "callbacks (when_up (Some (Handler 0)) (new_stick 100)) = [(''up'', Handler 0)] \<and>
   callbacks_thread (when_up (Some (Handler 0)) (new_stick 100)) = Some (CallbacksThread 1) \<and>
   started (when_up (Some (Handler 0)) (new_stick 100)) = [ReadThread, CallbacksThread 1] \<and>
   fst (run_callbacks (when_up (Some (Handler 0)) (new_stick 100))) = Raise Empty \<and>
   when_down (Some (Handler 1)) (when_up (Some (Handler 0)) (new_stick 100)) =
     (when_up (Some (Handler 0)) (new_stick 100))\<lparr>callbacks :=
        [(''up'', Handler 0), (''down'', Handler 1)]\<rparr>"
proof -
  define s where "s = when_up (Some (Handler 0)) (new_stick 100)"
  have s_eq: "s =
     \<lparr>callbacks_close = False, callbacks = [(''up'', Handler 0)],
      callbacks_thread = Some (CallbacksThread 1), closing = False,
      buffer = \<lparr>maxsize = 100, items = []\<rparr>, read_thread = Some ReadThread,
      rotate_attr = None, rotation_attr = None,
      started = [ReadThread, CallbacksThread 1], joined = [], warned = [], called = []\<rparr>"
    by (simp add: s_def model_defs)
  have 1: "callbacks s = [(''up'', Handler 0)]"
    and 2: "callbacks_thread s = Some (CallbacksThread 1)"
    and 3: "started s = [ReadThread, CallbacksThread 1]"
    by (simp_all add: s_eq)
  have "run_callbacks_loop None s = (Raise Empty, s)"
    by (rule run_callbacks_loop_empty) (simp_all add: s_eq)
  then have 4: "fst (run_callbacks s) = Raise Empty"
    by (simp add: run_callbacks_def)
  have 5: "when_down (Some (Handler 1)) s =
      s\<lparr>callbacks := [(''up'', Handler 0), (''down'', Handler 1)]\<rparr>"
    by (simp add: s_eq when_down_def set_when_def start_stop_callbacks_def)
  from 1 2 3 4 5 show ?thesis
    unfolding s_def by (intro conjI)
qed

text \<open>
  C2: handlers for \<^verbatim>\<open>up\<close> and \<^verbatim>\<open>down\<close> only. A \<^verbatim>\<open>left\<close> event that is the first one
  the dispatch thread pops ends the thread with \<^verbatim>\<open>UnboundLocalError\<close>; a \<^verbatim>\<open>left\<close>
  event popped after an \<^verbatim>\<open>up\<close> event is passed to the handler of \<^verbatim>\<open>up\<close>.
\<close>

theorem run_callbacks_unregistered_direction:
  "run_callbacks (snd (read_stick fl
      [\<lparr>tv_sec = 7, tv_usec = 0, ev_type = 1, ev_code = 105, ev_value = 1\<rparr>]
      (when_down (Some (Handler 2)) (when_up (Some (Handler 1)) (new_stick 100))))) =
     (Raise UnboundLocalError,
      when_down (Some (Handler 2)) (when_up (Some (Handler 1)) (new_stick 100))) \<and>
   run_callbacks (snd (read_stick fl
      [\<lparr>tv_sec = 6, tv_usec = 0, ev_type = 1, ev_code = 103, ev_value = 1\<rparr>,
       \<lparr>tv_sec = 7, tv_usec = 0, ev_type = 1, ev_code = 105, ev_value = 1\<rparr>]
      (when_down (Some (Handler 2)) (when_up (Some (Handler 1)) (new_stick 100))))) =
     (Raise Empty,
      (when_down (Some (Handler 2)) (when_up (Some (Handler 1)) (new_stick 100)))\<lparr>called :=
        [(Handler 1, \<lparr>timestamp = add_float fl 6 (truediv fl 0 1000000), direction = ''up'', action = ''pressed''\<rparr>),
         (Handler 1, \<lparr>timestamp = add_float fl 7 (truediv fl 0 1000000), direction = ''left'', action = ''pressed''\<rparr>)]\<rparr>)"
proof -
  define s where "s = when_down (Some (Handler 2)) (when_up (Some (Handler 1)) (new_stick 100))"
  have s_eq: "s =
     \<lparr>callbacks_close = False, callbacks = [(''up'', Handler 1), (''down'', Handler 2)],
      callbacks_thread = Some (CallbacksThread 1), closing = False,
      buffer = \<lparr>maxsize = 100, items = []\<rparr>, read_thread = Some ReadThread,
      rotate_attr = None, rotation_attr = None,
      started = [ReadThread, CallbacksThread 1], joined = [], warned = [], called = []\<rparr>"
    by (simp add: s_def model_defs)
  let ?left = "\<lparr>timestamp = add_float fl 7 (truediv fl 0 1000000), direction = ''left'', action = ''pressed''\<rparr>"
  let ?up = "\<lparr>timestamp = add_float fl 6 (truediv fl 0 1000000), direction = ''up'', action = ''pressed''\<rparr>"
  let ?s1 = "s\<lparr>buffer := \<lparr>maxsize = 100, items = [?left]\<rparr>\<rparr>"
  let ?s2 = "s\<lparr>buffer := \<lparr>maxsize = 100, items = [?up, ?left]\<rparr>\<rparr>"
  let ?s3 = "s\<lparr>buffer := \<lparr>maxsize = 100, items = [?left]\<rparr>, called := [(Handler 1, ?up)]\<rparr>"
  let ?s4 = "s\<lparr>called := [(Handler 1, ?up), (Handler 1, ?left)]\<rparr>"
  have r1: "read_stick fl [\<lparr>tv_sec = 7, tv_usec = 0, ev_type = 1, ev_code = 105, ev_value = 1\<rparr>] s =
     (Return (), ?s1)"
    by (simp add: s_eq read_stick_record_def EV_KEY_def make_room_eq Queue_full_def
        make_event_cases tables Queue_put_def)
  have r2: "read_stick fl [\<lparr>tv_sec = 6, tv_usec = 0, ev_type = 1, ev_code = 103, ev_value = 1\<rparr>,
               \<lparr>tv_sec = 7, tv_usec = 0, ev_type = 1, ev_code = 105, ev_value = 1\<rparr>] s =
     (Return (), ?s2)"
    by (simp add: s_eq read_stick_record_def EV_KEY_def make_room_eq Queue_full_def
        make_event_cases tables Queue_put_def)
  have "run_callbacks_turn None ?s1 = (Raise UnboundLocalError, s)"
    by (simp add: run_callbacks_turn_def Queue_get_def s_eq)
  then have "run_callbacks_loop None ?s1 = (Raise UnboundLocalError, s)"
    by (rule run_callbacks_loop_raise [rotated 2]) (simp_all add: s_eq)
  then have first: "run_callbacks (snd (read_stick fl
      [\<lparr>tv_sec = 7, tv_usec = 0, ev_type = 1, ev_code = 105, ev_value = 1\<rparr>] s)) =
     (Raise UnboundLocalError, s)"
    by (simp only: run_callbacks_def r1 snd_conv)
  have t1: "run_callbacks_turn None ?s2 = (Return (Some (Handler 1)), ?s3)"
    by (simp add: run_callbacks_turn_def Queue_get_def s_eq)
  have t2: "run_callbacks_turn (Some (Handler 1)) ?s3 = (Return (Some (Handler 1)), ?s4)"
    by (simp add: run_callbacks_turn_def Queue_get_def s_eq)
  have t3: "run_callbacks_loop (Some (Handler 1)) ?s4 = (Raise Empty, ?s4)"
    by (rule run_callbacks_loop_empty) (simp_all add: s_eq)
  have "run_callbacks_loop None ?s2 = run_callbacks_loop (Some (Handler 1)) ?s3"
    by (rule run_callbacks_loop_step [OF _ _ t1]) (simp_all add: s_eq)
  also have "\<dots> = run_callbacks_loop (Some (Handler 1)) ?s4"
    by (rule run_callbacks_loop_step [OF _ _ t2]) (simp_all add: s_eq)
  also note t3
  finally have second: "run_callbacks (snd (read_stick fl
      [\<lparr>tv_sec = 6, tv_usec = 0, ev_type = 1, ev_code = 103, ev_value = 1\<rparr>,
       \<lparr>tv_sec = 7, tv_usec = 0, ev_type = 1, ev_code = 105, ev_value = 1\<rparr>] s)) =
     (Raise Empty, ?s4)"
    by (simp only: run_callbacks_def r2 snd_conv)
  from first second show ?thesis
    unfolding s_def by (intro conjI)
qed

subsection \<open>\<^verbatim>\<open>close\<close>\<close>

lemma set_when_read_thread: "read_thread (set_when key v s) = read_thread s"
  by (simp add: set_when_def start_stop_callbacks_fields split: option.splits)

lemma assign_all_read_thread: "read_thread (assign_all ops s) = read_thread s"
proof (induction ops arbitrary: s)
  case Nil
  show ?case by simp
next
  case (Cons a ops)
  obtain key v where "assign a s = set_when key v s"
    using assign_set_when by blast
  with Cons show ?case by (simp add: set_when_read_thread)
qed

lemma close_twice: "close (close s) = close s"
  by (simp add: close_def Let_def Thread_join_def split: option.splits)

lemma close_open:
  "read_thread s = Some rt \<Longrightarrow>
     close s = s\<lparr>closing := True,
                joined := joined s @ [rt] @ (case callbacks_thread s of None \<Rightarrow> [] | Some ct \<Rightarrow> [ct]),
                read_thread := None, callbacks_thread := None\<rparr>"
  by (simp add: close_def Let_def Thread_join_def split: option.splits)

text \<open>
  C8: a second \<^verbatim>\<open>close()\<close> changes nothing. On an object whose handlers were assigned
  in any way, the first \<^verbatim>\<open>close()\<close> sets the reader's flag, joins the reader thread and
  the dispatch thread if there is one, and clears both handles; afterwards every thread
  that was started has been joined.
\<close>

theorem close_idempotent:
  "close (close s) = close s \<and>
   (let s0 = assign_all ops (new_stick m); s1 = close s0 in
      s1 = s0\<lparr>closing := True, joined := joined s0 @ [ReadThread] @ dispatch_threads s0,
              read_thread := None, callbacks_thread := None\<rparr> \<and>
      list_all (\<lambda>t. t \<in> set (joined s1)) (started s1) \<and>
      dispatch_threads s1 = [])"
proof -
  define s0 where "s0 = assign_all ops (new_stick m)"
  have ok: "registry_ok s0"
    unfolding s0_def by (rule registry_ok_assign_all [OF registry_ok_new_stick])
  then have dt: "dispatch_threads s0 = (case callbacks_thread s0 of None \<Rightarrow> [] | Some t \<Rightarrow> [t])"
    by (simp add: registry_ok_def threads_ok_def)
  have rt: "read_thread s0 = Some ReadThread"
    by (simp add: s0_def assign_all_read_thread new_stick_fields)
  have c: "close s0 = s0\<lparr>closing := True, joined := joined s0 @ [ReadThread] @ dispatch_threads s0,
              read_thread := None, callbacks_thread := None\<rparr>"
    by (simp only: close_open [OF rt] dt)
  have "t \<in> set (joined s0 @ [ReadThread] @ dispatch_threads s0)" if h: "t \<in> set (started s0)" for t
  proof (cases t)
    case ReadThread
    then show ?thesis by simp
  next
    case (CallbacksThread n)
    then have "is_dispatch t" by (simp add: is_dispatch_def)
    with h show ?thesis by (auto simp: dispatch_threads_def)
  qed
  then have j: "list_all (\<lambda>t. t \<in> set (joined (close s0))) (started (close s0))"
    by (simp add: c list_all_iff)
  have d: "dispatch_threads (close s0) = []"
    by (auto simp: c dispatch_threads_def filter_empty_conv)
  from close_twice c j d show ?thesis
    unfolding Let_def s0_def [symmetric] by (intro conjI)
qed

subsection \<open>The \<^verbatim>\<open>rotate\<close> property\<close>

text \<open>
  C5: the setter of \<^verbatim>\<open>rotate\<close> raises \<^verbatim>\<open>ValueError\<close> for every value that is not a
  multiple of 90 and leaves the object as it was; for every multiple of 90 it stores
  the value modulo 360, which lies in [0, 360), and the getter then returns it.
\<close>

theorem set_rotate_multiple_of_90:
  "(v mod 90 \<noteq> 0 \<longrightarrow> set_rotate v s = (Raise ValueError, s)) \<and>
   (v mod 90 = 0 \<longrightarrow>
      set_rotate v s = (Return (), s\<lparr>rotate_attr := Some (v mod 360)\<rparr>) \<and>
      get_rotate (snd (set_rotate v s)) = Return (v mod 360) \<and>
      0 \<le> v mod 360 \<and> v mod 360 < 360)"
  by (simp add: set_rotate_def get_rotate_def)

theorem set_rotate_multiple_of_90_witness:
  "set_rotate 45 (new_stick 100) = (Raise ValueError, new_stick 100) \<and>
   set_rotate (- 10) (new_stick 100) = (Raise ValueError, new_stick 100) \<and>
   set_rotate 91 (new_stick 100) = (Raise ValueError, new_stick 100) \<and>
   get_rotate (snd (set_rotate 0 (new_stick 100))) = Return 0 \<and>
   get_rotate (snd (set_rotate 90 (new_stick 100))) = Return 90 \<and>
   get_rotate (snd (set_rotate 180 (new_stick 100))) = Return 180 \<and>
   get_rotate (snd (set_rotate 270 (new_stick 100))) = Return 270 \<and>
   get_rotate (snd (set_rotate 360 (new_stick 100))) = Return 0 \<and>
   get_rotate (snd (set_rotate (- 90) (new_stick 100))) = Return 270 \<and>
   get_rotate (snd (set_rotate 45 (snd (set_rotate 90 (new_stick 100))))) = Return 90"
  using set_rotate_multiple_of_90 [of 45 "new_stick 100"]
    set_rotate_multiple_of_90 [of "- 10" "new_stick 100"]
    set_rotate_multiple_of_90 [of 91 "new_stick 100"]
    set_rotate_multiple_of_90 [of 0 "new_stick 100"]
    set_rotate_multiple_of_90 [of 90 "new_stick 100"]
    set_rotate_multiple_of_90 [of 180 "new_stick 100"]
    set_rotate_multiple_of_90 [of 270 "new_stick 100"]
    set_rotate_multiple_of_90 [of 360 "new_stick 100"]
    set_rotate_multiple_of_90 [of "- 90" "new_stick 100"]
    set_rotate_multiple_of_90 [of 45 "snd (set_rotate 90 (new_stick 100))"]
  by (simp add: get_rotate_def)

text \<open>
  C9: the constructor does not assign \<^verbatim>\<open>_rotate\<close>, so reading \<^verbatim>\<open>rotate\<close> on the object
  it returns raises \<^verbatim>\<open>AttributeError\<close>.
\<close>

theorem get_rotate_after_init:
  "\<exists>s. init max_events (Return path) = Return s \<and> rotate_attr s = None \<and>
     get_rotate s = Raise AttributeError"
  by (simp add: init_def new_stick_def Thread_start_def get_rotate_def)

subsection \<open>The facade\<close>




end
